theory Spec2Isabelle
  imports Complex_Main
begin

unbundle bit_operations_syntax

section \<open>The key table of \<open>KeyPresser\<close>\<close>

text \<open>
  \<open>key_presser.py\<close> defines one class, \<open>KeyPresser\<close>. Its class attribute
  \<open>KEY_CODES\<close> is a dictionary literal from key names to integer codes. The literal is
  kept here as an association list in source order: Python dictionaries iterate in
  insertion order, which is what \<open>KEY_CODES.keys()\<close> yields, and \<open>map_of\<close> is the
  dictionary's lookup (no name occurs twice in the literal, see \<open>KEY_CODES_names_distinct\<close>,
  so first-match and last-write agree).
\<close>

definition KEY_CODES :: "(string \<times> int) list" where
  "KEY_CODES = [
    (''Q'', 0x10),
    (''E'', 0x12),
    (''W'', 0x11),
    (''R'', 0x13),
    (''T'', 0x14),
    (''Y'', 0x15),
    (''U'', 0x16),
    (''I'', 0x17),
    (''O'', 0x18),
    (''P'', 0x19),
    (''A'', 0x1E),
    (''S'', 0x1F),
    (''D'', 0x20),
    (''F'', 0x21),
    (''G'', 0x22),
    (''H'', 0x23),
    (''J'', 0x24),
    (''K'', 0x25),
    (''L'', 0x26),
    (''Z'', 0x2C),
    (''X'', 0x2D),
    (''C'', 0x2E),
    (''V'', 0x2F),
    (''B'', 0x30),
    (''N'', 0x31),
    (''M'', 0x32),
    (''LEFT_ARROW'', 0xCB),
    (''RIGHT_ARROW'', 0xCD),
    (''UP_ARROW'', 0xC8),
    (''DOWN_ARROW'', 0xD0),
    (''ESC'', 0x01),
    (''ONE'', 0x02),
    (''TWO'', 0x03),
    (''THREE'', 0x04),
    (''FOUR'', 0x05),
    (''FIVE'', 0x06),
    (''SIX'', 0x07),
    (''SEVEN'', 0x08),
    (''EIGHT'', 0x09),
    (''NINE'', 0x0A),
    (''ZERO'', 0x0B),
    (''MINUS'', 0x0C),
    (''EQUALS'', 0x0D),
    (''BACKSPACE'', 0x0E),
    (''APOSTROPHE'', 0x28),
    (''SEMICOLON'', 0x27),
    (''TAB'', 0x0F),
    (''CAPSLOCK'', 0x3A),
    (''ENTER'', 0x1C),
    (''LEFT_CONTROL'', 0x1D),
    (''LEFT_ALT'', 0x38),
    (''LEFT_SHIFT'', 0x2A),
    (''RIGHT_SHIFT'', 0x36),
    (''TILDE'', 0x29),
    (''PRINTSCREEN'', 0x37),
    (''NUM_LOCK'', 0x45),
    (''SPACE'', 0x39),
    (''DELETE'', 0x53),
    (''COMMA'', 0x33),
    (''PERIOD'', 0x34),
    (''BACKSLASH'', 0x35),
    (''FORWARDSLASH'', 0x2B),
    (''LEFT_BRACKET'', 0x1A),
    (''RIGHT_BRACKET'', 0x1B),
    (''F1'', 0x3B),
    (''F2'', 0x3C),
    (''F3'', 0x3D),
    (''F4'', 0x3E),
    (''F5'', 0x3F),
    (''F6'', 0x40),
    (''F7'', 0x41),
    (''F8'', 0x42),
    (''F9'', 0x43),
    (''F10'', 0x44),
    (''F11'', 0x57),
    (''F12'', 0x58),
    (''NUMPAD_0'', 0x52),
    (''NUMPAD_1'', 0x4F),
    (''NUMPAD_2'', 0x50),
    (''NUMPAD_3'', 0x51),
    (''NUMPAD_4'', 0x4B),
    (''NUMPAD_5'', 0x4C),
    (''NUMPAD_6'', 0x4D),
    (''NUMPAD_7'', 0x47),
    (''NUMPAD_8'', 0x48),
    (''NUMPAD_9'', 0x49),
    (''NUMPAD_PLUS'', 0x4E),
    (''NUMPAD_MINUS'', 0x4A),
    (''NUMPAD_PERIOD'', 0x53),
    (''NUMPAD_ENTER'', 0x9C),
    (''NUMPAD_BACKSLASH'', 0xB5),
    (''LEFT_MOUSE'', 0x100),
    (''RIGHT_MOUSE'', 0x101),
    (''MIDDLE_MOUSE'', 0x102),
    (''MOUSE3'', 0x103),
    (''MOUSE4'', 0x104),
    (''MOUSE5'', 0x105),
    (''MOUSE6'', 0x106),
    (''MOUSE7'', 0x107),
    (''MOUSE_WHEEL_UP'', 0x108),
    (''MOUSE_WHEEL_DOWN'', 0x109)
  ]"

definition KEY_EVENT_KEY_UP :: int where
  "KEY_EVENT_KEY_UP = 0x0002"

definition KEY_EVENT_SCANCODE :: int where
  "KEY_EVENT_SCANCODE = 0x0008"

definition INPUT_KEYBOARD :: int where
  "INPUT_KEYBOARD = 1"

section \<open>Strings\<close>

text \<open>
  Key names are Python \<open>str\<close> values, modelled as \<open>string\<close> (lists of 8-bit characters).
  \<open>upper\<close> and \<open>lower\<close> are \<open>str.upper\<close> and \<open>str.lower\<close> as they act on ASCII text:
  the letters \<open>a\<close>..\<open>z\<close> (codes 97..122) and \<open>A\<close>..\<open>Z\<close> (codes 65..90) are exchanged,
  every other character is kept. Python applies the Unicode case mappings to code points
  beyond ASCII (accented letters, for one); the model keeps those characters as they
  are. Every key of the table is plain ASCII, so this bears on no valid name: it shows
  only in how an invalid name with such characters is spelled at the head of the error
  message.
\<close>

definition upper_char :: "char \<Rightarrow> char" where
  "upper_char c =
     (let n = (of_char c :: nat) in if 97 \<le> n \<and> n \<le> 122 then char_of (n - 32) else c)"

definition lower_char :: "char \<Rightarrow> char" where
  "lower_char c =
     (let n = (of_char c :: nat) in if 65 \<le> n \<and> n \<le> 90 then char_of (n + 32) else c)"

definition upper :: "string \<Rightarrow> string" where
  "upper s = map upper_char s"

definition lower :: "string \<Rightarrow> string" where
  "lower s = map lower_char s"

text \<open>\<open>sep.join(xs)\<close>.\<close>

fun join :: "string \<Rightarrow> string list \<Rightarrow> string" where
  "join sep [] = []"
| "join sep [x] = x"
| "join sep (x # y # ys) = x @ sep @ join sep (y # ys)"

section \<open>Errors, effects and the controller's state\<close>

text \<open>
  The only exception the module raises itself is \<open>ValueError\<close>, with a message.
  \<open>time.sleep\<close> raises the same exception class for a negative argument and for
  \<open>nan\<close>, and \<open>OverflowError\<close> for a number its clock cannot hold; the message of the
  latter differs between interpreter versions and is left out.
\<close>

datatype error = ValueError string | OverflowError

text \<open>
  The argument \<open>seconds\<close> of \<open>hold_and_release_key\<close> is a Python number: a finite one
  (an \<open>int\<close> or a finite \<open>float\<close>, taken as the real number it denotes), one of the two
  infinities, or \<open>nan\<close>.
\<close>

datatype pyfloat = Finite real | PosInf | NegInf | NaN

text \<open>
  The keyboard event handed to \<open>SendInput\<close>: the arguments of the call
  \<open>KEYBDINPUT(0, hex_key_code, flags, 0, pointer)\<close> in order (the pointer to the
  zero \<open>extra_info\<close> is left out), wrapped in \<open>INPUT(type, union)\<close>.
\<close>

datatype KEYBDINPUT = KEYBDINPUT (wVk: int) (wScan: int) (dwFlags: int) (time: int)

datatype INPUT = INPUT (input_type: int) (ki: KEYBDINPUT)

text \<open>
  What the controller does to the outside world, in the order it does it: calls of
  \<open>self.send_input(1, pointer(keyboard_input), sizeof(keyboard_input))\<close> and calls of
  \<open>time.sleep(seconds)\<close> that returned. \<open>SendInput\<close> returns a count that the methods
  ignore; on the platform the class is written for, neither it nor the construction of
  the event raises.
\<close>

datatype effect = SendInput INPUT | Sleep real

record KeyPresser =
  pressed_keys :: "string set"
  effects :: "effect list"

text \<open>\<open>__init__\<close>: an empty set of pressed keys; nothing has been sent yet.\<close>

definition init :: KeyPresser where
  "init = \<lparr>pressed_keys = {}, effects = []\<rparr>"

text \<open>
  A method returns \<open>None\<close> or raises; either way the object is left in some state.
  The result of a method is the pair of its outcome and the state it leaves.
\<close>

type_synonym outcome = "error + unit"

section \<open>The methods\<close>

definition get_hex_key_code :: "string \<Rightarrow> error + int" where
  "get_hex_key_code key_name0 =
     (let key_name = upper key_name0 in
      case map_of KEY_CODES key_name of
        None \<Rightarrow>
          (let valid_keys = join '', '' (map fst KEY_CODES) in
           Inl (ValueError (key_name @ '' is not a valid key name. ''
                  @ ''Please choose from the following valid keys: ''
                  @ valid_keys)))
      | Some hex_code \<Rightarrow> Inr hex_code)"

definition send_input :: "INPUT \<Rightarrow> KeyPresser \<Rightarrow> KeyPresser" where
  "send_input keyboard_input s = s\<lparr>effects := effects s @ [SendInput keyboard_input]\<rparr>"

definition hold_key :: "string \<Rightarrow> KeyPresser \<Rightarrow> outcome \<times> KeyPresser" where
  "hold_key key_name s =
     (case get_hex_key_code key_name of
        Inl e \<Rightarrow> (Inl e, s)
      | Inr hex_key_code \<Rightarrow>
          (let keyboard_input =
                 INPUT INPUT_KEYBOARD (KEYBDINPUT 0 hex_key_code KEY_EVENT_SCANCODE 0);
               s1 = send_input keyboard_input s
           in (Inr (), s1\<lparr>pressed_keys := insert key_name (pressed_keys s1)\<rparr>)))"

definition release_key :: "string \<Rightarrow> KeyPresser \<Rightarrow> outcome \<times> KeyPresser" where
  "release_key key_name s =
     (case get_hex_key_code key_name of
        Inl e \<Rightarrow> (Inl e, s)
      | Inr hex_key_code \<Rightarrow>
          (let keyboard_input =
                 INPUT INPUT_KEYBOARD
                   (KEYBDINPUT 0 hex_key_code (KEY_EVENT_SCANCODE OR KEY_EVENT_KEY_UP) 0);
               s1 = send_input keyboard_input s
           in (Inr (), s1\<lparr>pressed_keys := pressed_keys s1 - {key_name}\<rparr>)))"

text \<open>
  \<open>time.sleep(seconds)\<close>, in the order the interpreter proceeds:
  \<^item> \<open>nan\<close> raises \<open>ValueError: Invalid value NaN (not a number)\<close>;
  \<^item> the number is converted to the interpreter's clock type, and one that does not fit,
    of either sign, raises \<open>OverflowError\<close>; the infinities never fit;
  \<^item> a negative number raises \<open>ValueError: sleep length must be non-negative\<close>;
  \<^item> otherwise the call returns after the delay, which is recorded as an effect.

  Which finite numbers fit the clock depends on the interpreter's version and platform
  (a 64-bit count of nanoseconds in recent ones; for the positive side a 32-bit count of
  milliseconds in older ones on Windows). The two bounds are therefore parameters of the
  model, \<open>limits\<close>: a number fits when it lies between \<open>- \<bar>fst limits\<bar>\<close> and
  \<open>\<bar>snd limits\<bar>\<close>, so zero fits every clock. Signals that interrupt the sleep are outside
  the model.
\<close>

definition fits_clock :: "real \<times> real \<Rightarrow> real \<Rightarrow> bool" where
  "fits_clock limits d = (- \<bar>fst limits\<bar> \<le> d \<and> d \<le> \<bar>snd limits\<bar>)"

definition sleep :: "real \<times> real \<Rightarrow> pyfloat \<Rightarrow> KeyPresser \<Rightarrow> outcome \<times> KeyPresser" where
  "sleep limits seconds s =
     (case seconds of
        NaN \<Rightarrow> (Inl (ValueError ''Invalid value NaN (not a number)''), s)
      | PosInf \<Rightarrow> (Inl OverflowError, s)
      | NegInf \<Rightarrow> (Inl OverflowError, s)
      | Finite d \<Rightarrow>
          if \<not> fits_clock limits d then (Inl OverflowError, s)
          else if d < 0 then (Inl (ValueError ''sleep length must be non-negative''), s)
          else (Inr (), s\<lparr>effects := effects s @ [Sleep d]\<rparr>))"

text \<open>
  \<open>hold_and_release_key\<close> has no handler around the sleep: an exception of
  \<open>time.sleep\<close> leaves the method after \<open>hold_key\<close> and before \<open>release_key\<close>.
\<close>

definition hold_and_release_key ::
  "real \<times> real \<Rightarrow> string \<Rightarrow> pyfloat \<Rightarrow> KeyPresser \<Rightarrow> outcome \<times> KeyPresser" where
  "hold_and_release_key limits key_name seconds s =
     (case hold_key key_name s of
        (Inl e, s1) \<Rightarrow> (Inl e, s1)
      | (Inr _, s1) \<Rightarrow>
          (case sleep limits seconds s1 of
             (Inl e, s2) \<Rightarrow> (Inl e, s2)
           | (Inr _, s2) \<Rightarrow> release_key key_name s2))"

text \<open>
  \<open>release_all_keys\<close> loops over \<open>list(self.pressed_keys)\<close>. The order in which a Python
  set is listed is not specified: \<open>snapshot_of ks S\<close> says that \<open>ks\<close> is one of the lists
  \<open>list(S)\<close> may produce, every element of \<open>S\<close> once. The method takes the list as an
  argument; the loop stops at the first exception, since the body has no handler.
\<close>

definition snapshot_of :: "string list \<Rightarrow> string set \<Rightarrow> bool" where
  "snapshot_of ks S = (distinct ks \<and> set ks = S)"

fun release_each :: "string list \<Rightarrow> KeyPresser \<Rightarrow> outcome \<times> KeyPresser" where
  "release_each [] s = (Inr (), s)"
| "release_each (key_code # rest) s =
     (case release_key key_code s of
        (Inl e, s1) \<Rightarrow> (Inl e, s1)
      | (Inr _, s1) \<Rightarrow> release_each rest s1)"

definition release_all_keys :: "string list \<Rightarrow> KeyPresser \<Rightarrow> outcome \<times> KeyPresser" where
  "release_all_keys snapshot s = release_each snapshot s"

section \<open>Notions used to state the properties\<close>

text \<open>
  A key name is valid when its upper-cased form is a key of the table: the negation of
  the test \<open>key_name not in self.KEY_CODES\<close> that \<open>get_hex_key_code\<close> makes after
  \<open>key_name = key_name.upper()\<close>.
\<close>

definition valid_key_name :: "string \<Rightarrow> bool" where
  "valid_key_name k = (upper k \<in> set (map fst KEY_CODES))"

text \<open>The message of the \<open>ValueError\<close> that \<open>get_hex_key_code\<close> raises for \<open>k\<close>.\<close>

definition unknown_key_message :: "string \<Rightarrow> string" where
  "unknown_key_message k =
     upper k @ '' is not a valid key name. Please choose from the following valid keys: ''
       @ join '', '' (map fst KEY_CODES)"

text \<open>The events \<open>hold_key\<close> and \<open>release_key\<close> send for a code.\<close>

definition key_down_event :: "int \<Rightarrow> effect" where
  "key_down_event code =
     SendInput (INPUT INPUT_KEYBOARD (KEYBDINPUT 0 code KEY_EVENT_SCANCODE 0))"

definition key_up_event :: "int \<Rightarrow> effect" where
  "key_up_event code =
     SendInput (INPUT INPUT_KEYBOARD
       (KEYBDINPUT 0 code (KEY_EVENT_SCANCODE OR KEY_EVENT_KEY_UP) 0))"

text \<open>
  The states a controller can be in: the one \<open>__init__\<close> builds, and every state a
  method call leaves behind, whether the call returned or raised.
\<close>

inductive reachable :: "KeyPresser \<Rightarrow> bool" where
  reach_init: "reachable init"
| reach_hold: "reachable s \<Longrightarrow> reachable (snd (hold_key k s))"
| reach_release: "reachable s \<Longrightarrow> reachable (snd (release_key k s))"
| reach_hold_and_release:
    "reachable s \<Longrightarrow> reachable (snd (hold_and_release_key limits k d s))"
| reach_release_all:
    "reachable s \<Longrightarrow> snapshot_of ks (pressed_keys s) \<Longrightarrow>
     reachable (snd (release_all_keys ks s))"

text \<open>The invariant of \<open>pressed_keys\<close>: finitely many names, each of them valid.\<close>

definition pressed_valid :: "KeyPresser \<Rightarrow> bool" where
  "pressed_valid s = (finite (pressed_keys s) \<and> (\<forall>k \<in> pressed_keys s. valid_key_name k))"

section \<open>Facts about the table and the strings\<close>

lemma KEY_CODES_names_distinct: "distinct (map fst KEY_CODES)"
  by code_simp


lemma codes_distinct_without_DELETE:
  "distinct (map snd (filter (\<lambda>(n, c). n \<noteq> ''DELETE'') KEY_CODES))"
  by code_simp

lemma lookup_DELETE: "map_of KEY_CODES ''DELETE'' = Some 0x53"
  by code_simp

lemma lookup_NUMPAD_PERIOD: "map_of KEY_CODES ''NUMPAD_PERIOD'' = Some 0x53"
  by code_simp

lemma NUMPAD_PERIOD_entry:
  "(''NUMPAD_PERIOD'', 0x53) \<in> set (filter (\<lambda>(n, c). n \<noteq> ''DELETE'') KEY_CODES)"
  by code_simp

lemma lookup_A: "map_of KEY_CODES ''A'' = Some 0x1E"
  by code_simp

lemma upper_char_idem: "upper_char (upper_char c) = upper_char c"
  by (auto simp: upper_char_def Let_def)

lemma upper_char_lower_char: "upper_char (lower_char c) = upper_char c"
  by (auto simp: upper_char_def lower_char_def Let_def)

lemma upper_idem: "upper (upper k) = upper k"
  by (simp add: upper_def upper_char_idem)

lemma upper_lower: "upper (lower k) = upper k"
  by (simp add: upper_def lower_def upper_char_lower_char)

lemma valid_iff_map_of: "valid_key_name k \<longleftrightarrow> (\<exists>c. map_of KEY_CODES (upper k) = Some c)"
  unfolding valid_key_name_def
  by (metis domD domI dom_map_of_conv_image_fst image_set)

lemma valid_space: "valid_key_name ''space''"
  by code_simp

lemma valid_SPACE: "valid_key_name ''SPACE''"
  by code_simp

lemma invalid_nonexistent_key: "\<not> valid_key_name ''nonexistent_key''"
  by code_simp


lemma upper_space: "upper ''space'' = ''SPACE''"
  by code_simp

lemma upper_SPACE: "upper ''SPACE'' = ''SPACE''"
  by code_simp

lemma lower_space: "lower ''space'' = ''space''"
  by code_simp

lemma code_space: "get_hex_key_code ''space'' = Inr 0x39"
  by code_simp

lemma code_SPACE: "get_hex_key_code ''SPACE'' = Inr 0x39"
  by code_simp

lemma code_A: "get_hex_key_code ''A'' = Inr 0x1E"
  by code_simp

lemma code_LEFT_ARROW: "get_hex_key_code ''LEFT_ARROW'' = Inr 0xCB"
  by code_simp

section \<open>Facts about the methods\<close>

lemma get_hex_key_code_valid:
  "valid_key_name k \<Longrightarrow> \<exists>c. get_hex_key_code k = Inr c \<and> map_of KEY_CODES (upper k) = Some c"
  by (auto simp: valid_iff_map_of get_hex_key_code_def)

lemma get_hex_key_code_invalid:
  "\<not> valid_key_name k \<Longrightarrow> get_hex_key_code k = Inl (ValueError (unknown_key_message k))"
  by (auto simp: valid_iff_map_of get_hex_key_code_def unknown_key_message_def Let_def
      split: option.splits)

lemma get_hex_key_code_upper_eq:
  "upper k' = upper k \<Longrightarrow> get_hex_key_code k' = get_hex_key_code k"
  by (simp add: get_hex_key_code_def)

lemma hold_key_ok:
  "get_hex_key_code k = Inr c \<Longrightarrow>
   hold_key k s =
     (Inr (), s\<lparr>pressed_keys := insert k (pressed_keys s),
                 effects := effects s @ [key_down_event c]\<rparr>)"
  by (simp add: hold_key_def send_input_def key_down_event_def)

lemma release_key_ok:
  "get_hex_key_code k = Inr c \<Longrightarrow>
   release_key k s =
     (Inr (), s\<lparr>pressed_keys := pressed_keys s - {k},
                 effects := effects s @ [key_up_event c]\<rparr>)"
  by (simp add: release_key_def send_input_def key_up_event_def)

lemma hold_key_err: "get_hex_key_code k = Inl e \<Longrightarrow> hold_key k s = (Inl e, s)"
  by (simp add: hold_key_def)

lemma release_key_err: "get_hex_key_code k = Inl e \<Longrightarrow> release_key k s = (Inl e, s)"
  by (simp add: release_key_def)

lemma hold_key_pressed:
  "pressed_keys (snd (hold_key k s)) =
     (if valid_key_name k then insert k (pressed_keys s) else pressed_keys s)"
proof (cases "valid_key_name k")
  case True
  then obtain c where "get_hex_key_code k = Inr c"
    using get_hex_key_code_valid by blast
  with True show ?thesis by (simp add: hold_key_ok)
next
  case False
  then show ?thesis by (simp add: hold_key_err [OF get_hex_key_code_invalid])
qed

lemma release_key_pressed:
  "pressed_keys (snd (release_key k s)) =
     (if valid_key_name k then pressed_keys s - {k} else pressed_keys s)"
proof (cases "valid_key_name k")
  case True
  then obtain c where "get_hex_key_code k = Inr c"
    using get_hex_key_code_valid by blast
  with True show ?thesis by (simp add: release_key_ok)
next
  case False
  then show ?thesis by (simp add: release_key_err [OF get_hex_key_code_invalid])
qed

lemma sleep_pressed: "pressed_keys (snd (sleep limits d s)) = pressed_keys s"
  by (simp add: sleep_def split: pyfloat.split)

lemma fits_clock_zero: "fits_clock limits 0"
  by (simp add: fits_clock_def)

lemma sleep_zero:
  "sleep limits (Finite 0) s = (Inr (), s\<lparr>effects := effects s @ [Sleep 0]\<rparr>)"
  by (simp add: sleep_def fits_clock_zero)

lemma sleep_negative:
  "d < 0 \<Longrightarrow>
   sleep limits (Finite d) s =
     (Inl (if fits_clock limits d then ValueError ''sleep length must be non-negative''
           else OverflowError), s)"
  by (simp add: sleep_def)

lemma sleep_NegInf: "sleep limits NegInf s = (Inl OverflowError, s)"
  by (simp add: sleep_def)

text \<open>
  Whenever \<open>time.sleep\<close> raises, \<open>hold_and_release_key\<close> ends with that exception, the
  key-down event sent and the name in the set: too long a duration, an infinity and
  \<open>nan\<close> behave like a negative one.
\<close>

lemma hold_and_release_key_sleep_raises:
  assumes "get_hex_key_code k = Inr c"
    and "sleep limits d
           (s\<lparr>pressed_keys := insert k (pressed_keys s),
              effects := effects s @ [key_down_event c]\<rparr>) = (Inl e, s')"
  shows "hold_and_release_key limits k d s =
           (Inl e, s\<lparr>pressed_keys := insert k (pressed_keys s),
                      effects := effects s @ [key_down_event c]\<rparr>)"
proof -
  have "s' = s\<lparr>pressed_keys := insert k (pressed_keys s),
                effects := effects s @ [key_down_event c]\<rparr>"
    using assms(2) by (auto simp: sleep_def split: pyfloat.splits if_splits)
  then show ?thesis
    using assms(2) by (simp add: hold_and_release_key_def hold_key_ok [OF assms(1)])
qed

lemma hold_and_release_key_too_long:
  assumes "get_hex_key_code k = Inr c" and "\<not> fits_clock limits d"
  shows "hold_and_release_key limits k (Finite d) s =
           (Inl OverflowError, s\<lparr>pressed_keys := insert k (pressed_keys s),
                                  effects := effects s @ [key_down_event c]\<rparr>)"
  by (rule hold_and_release_key_sleep_raises [OF assms(1)]) (simp add: sleep_def assms(2))

lemma hold_and_release_key_NaN:
  assumes "get_hex_key_code k = Inr c"
  shows "hold_and_release_key limits k NaN s =
           (Inl (ValueError ''Invalid value NaN (not a number)''),
            s\<lparr>pressed_keys := insert k (pressed_keys s),
              effects := effects s @ [key_down_event c]\<rparr>)"
  by (rule hold_and_release_key_sleep_raises [OF assms]) (simp add: sleep_def)

text \<open>
  The loop of \<open>release_all_keys\<close> over names that all have a code: one key-up event per
  name, in the order of the list, and every listed name leaves the set.
\<close>

lemma release_each_ok:
  "map get_hex_key_code ks = map Inr cs \<Longrightarrow>
   release_each ks s =
     (Inr (), s\<lparr>pressed_keys := pressed_keys s - set ks,
                 effects := effects s @ map key_up_event cs\<rparr>)"
proof (induction ks arbitrary: cs s)
  case Nil
  then show ?case by simp
next
  case (Cons k ks)
  then obtain c cs' where cs: "cs = c # cs'" "get_hex_key_code k = Inr c"
    "map get_hex_key_code ks = map Inr cs'"
    by (cases cs) auto
  have sets: "pressed_keys s - {k} - set ks = pressed_keys s - set (k # ks)"
    by auto
  have "release_each (k # ks) s =
        release_each ks (s\<lparr>pressed_keys := pressed_keys s - {k},
                            effects := effects s @ [key_up_event c]\<rparr>)"
    by (simp add: release_key_ok [OF cs(2)])
  also have "\<dots> = (Inr (), s\<lparr>pressed_keys := pressed_keys s - {k} - set ks,
                 effects := (effects s @ [key_up_event c]) @ map key_up_event cs'\<rparr>)"
    by (simp add: Cons.IH [OF cs(3)])
  finally show ?case
    by (simp only: sets cs(1) list.map append_assoc append_Cons append_Nil)
qed

lemma all_codes:
  "\<forall>k \<in> set ks. valid_key_name k \<Longrightarrow> \<exists>cs. map get_hex_key_code ks = map Inr cs"
proof (induction ks)
  case Nil
  then show ?case by simp
next
  case (Cons k ks)
  then obtain cs where cs: "map get_hex_key_code ks = map Inr cs" by auto
  from Cons.prems obtain c where "get_hex_key_code k = Inr c"
    using get_hex_key_code_valid by auto
  with cs have "map get_hex_key_code (k # ks) = map Inr (c # cs)" by simp
  then show ?case by blast
qed

subsection \<open>The invariant holds in every reachable state\<close>

lemma hold_key_valid_inv: "pressed_valid s \<Longrightarrow> pressed_valid (snd (hold_key k s))"
  by (simp add: pressed_valid_def hold_key_pressed)

lemma release_key_valid_inv: "pressed_valid s \<Longrightarrow> pressed_valid (snd (release_key k s))"
  by (simp add: pressed_valid_def release_key_pressed)

lemma sleep_valid_inv: "pressed_valid s \<Longrightarrow> pressed_valid (snd (sleep limits d s))"
  by (simp add: pressed_valid_def sleep_pressed)

lemma release_each_valid_inv: "pressed_valid s \<Longrightarrow> pressed_valid (snd (release_each ks s))"
proof (induction ks arbitrary: s)
  case Nil
  then show ?case by simp
next
  case (Cons k ks)
  obtain r s1 where r: "release_key k s = (r, s1)" by (cases "release_key k s")
  have "pressed_valid s1"
    using release_key_valid_inv [OF Cons.prems, of k] r by simp
  then show ?case
    using Cons.IH [of s1] r by (cases r) simp_all
qed

lemma hold_and_release_key_valid_inv:
  assumes inv: "pressed_valid s"
  shows "pressed_valid (snd (hold_and_release_key limits k d s))"
proof -
  obtain r1 s1 where h: "hold_key k s = (r1, s1)" by (cases "hold_key k s")
  have i1: "pressed_valid s1" using hold_key_valid_inv [OF inv, of k] h by simp
  obtain r2 s2 where sl: "sleep limits d s1 = (r2, s2)" by (cases "sleep limits d s1")
  have i2: "pressed_valid s2" using sleep_valid_inv [OF i1, of limits d] sl by simp
  have i3: "pressed_valid (snd (release_key k s2))" by (rule release_key_valid_inv [OF i2])
  show ?thesis
    using h sl i1 i2 i3 by (cases r1; cases r2) (simp_all add: hold_and_release_key_def)
qed

lemma reachable_pressed_valid: "reachable s \<Longrightarrow> pressed_valid s"
proof (induction rule: reachable.induct)
  case reach_init
  show ?case by (simp add: pressed_valid_def init_def)
next
  case (reach_hold s k)
  then show ?case by (simp add: hold_key_valid_inv)
next
  case (reach_release s k)
  then show ?case by (simp add: release_key_valid_inv)
next
  case (reach_hold_and_release s limits k d)
  then show ?case by (simp add: hold_and_release_key_valid_inv)
next
  case (reach_release_all s ks)
  then show ?case by (simp add: release_all_keys_def release_each_valid_inv)
qed

text \<open>In a reachable state \<open>list(self.pressed_keys)\<close> has a value: the set is finite.\<close>

lemma reachable_has_snapshot: "reachable s \<Longrightarrow> \<exists>ks. snapshot_of ks (pressed_keys s)"
  using reachable_pressed_valid [of s] finite_distinct_list [of "pressed_keys s"]
  by (auto simp: pressed_valid_def snapshot_of_def)

subsection \<open>Names that share a code\<close>

lemma distinct_snd_unique:
  "distinct (map snd ys) \<Longrightarrow> (a, c) \<in> set ys \<Longrightarrow> (b, c) \<in> set ys \<Longrightarrow> a = b"
  by (metis distinct_map inj_on_def prod.inject snd_conv)

lemma same_code_cases:
  assumes "map_of KEY_CODES n1 = Some c" and "map_of KEY_CODES n2 = Some c" and "n1 \<noteq> n2"
  shows "{n1, n2} = {''DELETE'', ''NUMPAD_PERIOD''}"
proof -
  let ?ys = "filter (\<lambda>(n, c). n \<noteq> ''DELETE'') KEY_CODES"
  have mem: "\<And>n. map_of KEY_CODES n = Some c \<Longrightarrow> n \<noteq> ''DELETE'' \<Longrightarrow> (n, c) \<in> set ?ys"
    by (auto dest: map_of_SomeD)
  have uniq: "\<And>a b. (a, c) \<in> set ?ys \<Longrightarrow> (b, c) \<in> set ?ys \<Longrightarrow> a = b"
    using distinct_snd_unique [OF codes_distinct_without_DELETE] by blast
  have other: "n = ''NUMPAD_PERIOD''"
    if "map_of KEY_CODES n = Some c" "n \<noteq> ''DELETE''" "map_of KEY_CODES ''DELETE'' = Some c" for n
  proof -
    have "c = 0x53" using that(3) lookup_DELETE by simp
    then have "(''NUMPAD_PERIOD'', c) \<in> set ?ys" using NUMPAD_PERIOD_entry by simp
    then show ?thesis using uniq [OF mem [OF that(1,2)]] by blast
  qed
  show ?thesis
  proof (cases "n1 = ''DELETE''")
    case True
    then have "n2 \<noteq> ''DELETE''" using assms(3) by simp
    then have "n2 = ''NUMPAD_PERIOD''" using other [of n2] assms True by simp
    with True show ?thesis by simp
  next
    case n1: False
    show ?thesis
    proof (cases "n2 = ''DELETE''")
      case True
      then have "n1 = ''NUMPAD_PERIOD''" using other [of n1] assms n1 by simp
      with True show ?thesis by auto
    next
      case False
      have "n1 = n2"
        by (rule uniq [OF mem [OF assms(1) n1] mem [OF assms(2) False]])
      with assms(3) show ?thesis by simp
    qed
  qed
qed

section \<open>Properties of the controller\<close>

text \<open>
  The specification calls the methods \<open>lookup\<close> (\<open>get_hex_key_code\<close>), \<open>press\<close>
  (\<open>hold_key\<close>), \<open>release\<close> (\<open>release_key\<close>), \<open>press_and_hold\<close>
  (\<open>hold_and_release_key\<close>) and \<open>release_all\<close> (\<open>release_all_keys\<close>), and the error for
  an unknown name \<open>UnknownKeyError\<close>; in the code it is a \<open>ValueError\<close>.
\<close>

subsection \<open>C1: releasing all keys\<close>

text \<open>
  Claim C1. In every state the controller can reach, \<open>release_all_keys\<close>, run over any
  snapshot \<open>ks\<close> of the set of pressed keys, returns normally: every name of the snapshot
  has a code (no lookup fails), the set of pressed keys is empty afterwards, and the
  events sent are exactly one key-up event per name of the snapshot, in its order. The
  snapshot lists every pressed key once, so as many events are sent as keys were pressed.
\<close>

theorem release_all_keys_releases_each_once:
  assumes "reachable s" and "snapshot_of ks (pressed_keys s)"
  shows "\<exists>cs. map get_hex_key_code ks = map Inr cs \<and>
           length cs = card (pressed_keys s) \<and>
           release_all_keys ks s =
             (Inr (), s\<lparr>pressed_keys := {},
                         effects := effects s @ map key_up_event cs\<rparr>)"
proof -
  have "\<forall>k \<in> set ks. valid_key_name k"
    using reachable_pressed_valid [OF assms(1)] assms(2)
    by (simp add: pressed_valid_def snapshot_of_def)
  then obtain cs where cs: "map get_hex_key_code ks = map Inr cs"
    using all_codes by blast
  have "length cs = length ks"
    using arg_cong [OF cs, of length] by simp
  also have "\<dots> = card (pressed_keys s)"
    using assms(2) distinct_card [of ks] by (simp add: snapshot_of_def)
  finally have len: "length cs = card (pressed_keys s)" .
  have "pressed_keys s - set ks = {}"
    using assms(2) by (simp add: snapshot_of_def)
  then have "release_all_keys ks s =
      (Inr (), s\<lparr>pressed_keys := {}, effects := effects s @ map key_up_event cs\<rparr>)"
    using release_each_ok [OF cs, of s] by (simp add: release_all_keys_def)
  with cs len show ?thesis by blast
qed

text \<open>
  The scenario of the specification: \<open>A\<close>, \<open>SPACE\<close> and \<open>LEFT_ARROW\<close> are pressed on a
  fresh controller, and the set happens to be listed as \<open>SPACE\<close>, \<open>LEFT_ARROW\<close>, \<open>A\<close>.
\<close>

theorem release_all_keys_releases_each_once_witness:
  "reachable
     (snd (hold_key ''LEFT_ARROW'' (snd (hold_key ''SPACE'' (snd (hold_key ''A'' init)))))) \<and>
   snapshot_of [''SPACE'', ''LEFT_ARROW'', ''A'']
     (pressed_keys
        (snd (hold_key ''LEFT_ARROW'' (snd (hold_key ''SPACE'' (snd (hold_key ''A'' init))))))) \<and>
   release_all_keys [''SPACE'', ''LEFT_ARROW'', ''A'']
     (snd (hold_key ''LEFT_ARROW'' (snd (hold_key ''SPACE'' (snd (hold_key ''A'' init)))))) =
     (Inr (), \<lparr>pressed_keys = {},
               effects = [key_down_event 0x1E, key_down_event 0x39, key_down_event 0xCB,
                          key_up_event 0x39, key_up_event 0xCB, key_up_event 0x1E]\<rparr>)"
proof -
  let ?s = "snd (hold_key ''LEFT_ARROW'' (snd (hold_key ''SPACE'' (snd (hold_key ''A'' init)))))"
  let ?ks = "[''SPACE'', ''LEFT_ARROW'', ''A'']"
  have s: "?s = \<lparr>pressed_keys = {''LEFT_ARROW'', ''SPACE'', ''A''},
                 effects = [key_down_event 0x1E, key_down_event 0x39, key_down_event 0xCB]\<rparr>"
    by (simp add: hold_key_ok [OF code_A] hold_key_ok [OF code_SPACE]
          hold_key_ok [OF code_LEFT_ARROW] init_def)
  have r: "reachable ?s"
    by (intro reachable.intros)
  have sn: "snapshot_of ?ks (pressed_keys ?s)"
    unfolding s by (auto simp: snapshot_of_def)
  obtain cs where cs: "map get_hex_key_code ?ks = map Inr cs"
    and rel: "release_all_keys ?ks ?s =
                (Inr (), ?s\<lparr>pressed_keys := {}, effects := effects ?s @ map key_up_event cs\<rparr>)"
    using release_all_keys_releases_each_once [OF r sn] by blast
  have "cs = [0x39, 0xCB, 0x1E]"
    using cs by (auto simp: code_A code_SPACE code_LEFT_ARROW)
  then show ?thesis
    using r sn rel unfolding s by simp
qed

subsection \<open>C2: pressing and releasing one key\<close>

text \<open>
  Claim C2. For a valid key name \<open>k\<close>: \<open>hold_key k\<close> returns normally and \<open>k\<close> is in the
  set of pressed keys afterwards; it stays there when a different string is released;
  and \<open>release_key k\<close> right after \<open>hold_key k\<close> returns normally and leaves \<open>k\<close> out of
  the set.
\<close>

theorem press_release_membership:
  assumes "valid_key_name k"
  shows "fst (hold_key k s) = Inr () \<and>
         k \<in> pressed_keys (snd (hold_key k s)) \<and>
         (\<forall>k'. k' \<noteq> k \<longrightarrow> k \<in> pressed_keys (snd (release_key k' (snd (hold_key k s))))) \<and>
         fst (release_key k (snd (hold_key k s))) = Inr () \<and>
         k \<notin> pressed_keys (snd (release_key k (snd (hold_key k s))))"
proof -
  obtain c where c: "get_hex_key_code k = Inr c"
    using get_hex_key_code_valid [OF assms] by blast
  have "k \<in> pressed_keys (snd (release_key k' (snd (hold_key k s))))" if "k' \<noteq> k" for k'
    using that by (simp add: release_key_pressed hold_key_ok [OF c])
  then show ?thesis
    by (simp add: hold_key_ok [OF c] release_key_ok [OF c])
qed

theorem press_release_membership_witness:
  "valid_key_name ''space'' \<and>
   fst (hold_key ''space'' init) = Inr () \<and>
   ''space'' \<in> pressed_keys (snd (hold_key ''space'' init)) \<and>
   ''space'' \<in> pressed_keys (snd (release_key ''SPACE'' (snd (hold_key ''space'' init)))) \<and>
   fst (release_key ''space'' (snd (hold_key ''space'' init))) = Inr () \<and>
   ''space'' \<notin> pressed_keys (snd (release_key ''space'' (snd (hold_key ''space'' init))))"
  using valid_space press_release_membership [OF valid_space, of init] by simp

subsection \<open>C3: unknown key names\<close>



subsection \<open>C4: the lookup ignores case\<close>

text \<open>
  Claim C4. For a valid key name \<open>k\<close>, \<open>get_hex_key_code\<close> returns a code, and it
  returns the same one for \<open>k.upper()\<close>, for \<open>k.lower()\<close> and for every other string with
  the same upper-cased form. (The lookup is a function of its argument alone: it reads
  no state.)
\<close>

theorem lookup_case_insensitive:
  assumes "valid_key_name k"
  shows "(\<exists>c. get_hex_key_code k = Inr c \<and>
              get_hex_key_code (upper k) = Inr c \<and>
              get_hex_key_code (lower k) = Inr c) \<and>
         (\<forall>k'. upper k' = upper k \<longrightarrow> get_hex_key_code k' = get_hex_key_code k)"
proof -
  obtain c where c: "get_hex_key_code k = Inr c"
    using get_hex_key_code_valid [OF assms] by blast
  have "get_hex_key_code (upper k) = Inr c"
    using c get_hex_key_code_upper_eq [of "upper k" k] by (simp add: upper_idem)
  moreover have "get_hex_key_code (lower k) = Inr c"
    using c get_hex_key_code_upper_eq [of "lower k" k] by (simp add: upper_lower)
  ultimately show ?thesis
    using c get_hex_key_code_upper_eq by blast
qed

theorem lookup_case_insensitive_witness:
  "valid_key_name ''space'' \<and>
   get_hex_key_code ''space'' = Inr 0x39 \<and>
   get_hex_key_code (upper ''space'') = Inr 0x39 \<and>
   get_hex_key_code (lower ''space'') = Inr 0x39 \<and>
   get_hex_key_code ''SpAcE'' = get_hex_key_code ''space''"
proof -
  have same: "upper ''SpAcE'' = upper ''space''" by code_simp
  show ?thesis
    using valid_space lookup_case_insensitive [OF valid_space] same
    by (auto simp: code_space)
qed

subsection \<open>C5: holding a key for a duration\<close>

text \<open>
  Claim C5 says that for a valid key name and a duration that is zero or negative,
  \<open>hold_and_release_key\<close> returns normally with the key released. For a negative
  duration it does not: \<open>hold_key\<close> sends the key-down event and adds the name,
  \<open>time.sleep\<close> then raises, and \<open>release_key\<close> is never reached. The clock here is a
  64-bit count of nanoseconds, which holds about 9223372036 seconds.
\<close>

theorem hold_and_release_key_negative_counterexample:
  "valid_key_name ''SPACE'' \<and> (-1::real) \<le> 0 \<and>
   hold_and_release_key (9223372036, 9223372036) ''SPACE'' (Finite (-1)) init =
     (Inl (ValueError ''sleep length must be non-negative''),
      \<lparr>pressed_keys = {''SPACE''}, effects = [key_down_event 0x39]\<rparr>) \<and>
   ''SPACE'' \<in> pressed_keys
     (snd (hold_and_release_key (9223372036, 9223372036) ''SPACE'' (Finite (-1)) init))"
  by (simp add: valid_SPACE hold_and_release_key_def hold_key_ok [OF code_SPACE]
        sleep_def fits_clock_def init_def)

text \<open>
  Claim C5, amended. For a valid key name \<open>k\<close>, whatever the range of the clock: with
  the duration zero, \<open>hold_and_release_key\<close> returns normally, having sent the key-down
  event, slept for zero seconds and sent the key-up event, and \<open>k\<close> is not in the set of
  pressed keys on return. With a negative duration the key-down event is sent and \<open>k\<close>
  added, \<open>time.sleep\<close> then raises (\<open>ValueError\<close>, or \<open>OverflowError\<close> for a number
  beyond the clock, minus infinity included), and the call ends with that exception: no
  key-up event is sent and \<open>k\<close> is still in the set.
\<close>

theorem hold_and_release_key_by_sign:
  assumes "valid_key_name k"
  shows "\<exists>c. get_hex_key_code k = Inr c \<and>
           hold_and_release_key limits k (Finite 0) s =
             (Inr (), s\<lparr>pressed_keys := pressed_keys s - {k},
                         effects := effects s @
                           [key_down_event c, Sleep 0, key_up_event c]\<rparr>) \<and>
           k \<notin> pressed_keys (snd (hold_and_release_key limits k (Finite 0) s)) \<and>
           (\<forall>d<0.
              hold_and_release_key limits k (Finite d) s =
                (Inl (if fits_clock limits d
                      then ValueError ''sleep length must be non-negative''
                      else OverflowError),
                 s\<lparr>pressed_keys := insert k (pressed_keys s),
                   effects := effects s @ [key_down_event c]\<rparr>) \<and>
              k \<in> pressed_keys (snd (hold_and_release_key limits k (Finite d) s))) \<and>
           hold_and_release_key limits k NegInf s =
             (Inl OverflowError,
              s\<lparr>pressed_keys := insert k (pressed_keys s),
                effects := effects s @ [key_down_event c]\<rparr>)"
proof -
  obtain c where c: "get_hex_key_code k = Inr c"
    using get_hex_key_code_valid [OF assms] by blast
  let ?held = "s\<lparr>pressed_keys := insert k (pressed_keys s),
                  effects := effects s @ [key_down_event c]\<rparr>"
  have zero: "hold_and_release_key limits k (Finite 0) s =
      (Inr (), s\<lparr>pressed_keys := pressed_keys s - {k},
                  effects := effects s @ [key_down_event c, Sleep 0, key_up_event c]\<rparr>)"
    by (simp add: hold_and_release_key_def hold_key_ok [OF c] sleep_zero release_key_ok [OF c])
  have neg: "hold_and_release_key limits k (Finite d) s =
      (Inl (if fits_clock limits d then ValueError ''sleep length must be non-negative''
            else OverflowError), ?held)" if "d < 0" for d
    by (rule hold_and_release_key_sleep_raises [OF c]) (rule sleep_negative [OF that])
  have inf: "hold_and_release_key limits k NegInf s = (Inl OverflowError, ?held)"
    by (rule hold_and_release_key_sleep_raises [OF c]) (rule sleep_NegInf)
  have out: "k \<notin> pressed_keys (snd (hold_and_release_key limits k (Finite 0) s))"
    by (simp add: zero)
  have held: "k \<in> pressed_keys (snd (hold_and_release_key limits k (Finite d) s))"
    if "d < 0" for d
    by (simp add: neg [OF that])
  show ?thesis
    using c zero neg inf out held by blast
qed

theorem hold_and_release_key_by_sign_witness:
  "valid_key_name ''SPACE'' \<and>
   hold_and_release_key (9223372036, 9223372036) ''SPACE'' (Finite 0) init =
     (Inr (), \<lparr>pressed_keys = {},
               effects = [key_down_event 0x39, Sleep 0, key_up_event 0x39]\<rparr>) \<and>
   hold_and_release_key (9223372036, 9223372036) ''SPACE'' (Finite (-1)) init =
     (Inl (ValueError ''sleep length must be non-negative''),
      \<lparr>pressed_keys = {''SPACE''}, effects = [key_down_event 0x39]\<rparr>) \<and>
   hold_and_release_key (9223372036, 9223372036) ''SPACE'' (Finite (-10000000000)) init =
     (Inl OverflowError,
      \<lparr>pressed_keys = {''SPACE''}, effects = [key_down_event 0x39]\<rparr>) \<and>
   hold_and_release_key (9223372036, 9223372036) ''SPACE'' NegInf init =
     (Inl OverflowError,
      \<lparr>pressed_keys = {''SPACE''}, effects = [key_down_event 0x39]\<rparr>)"
proof -
  obtain c where c: "get_hex_key_code ''SPACE'' = Inr c"
    and zero: "hold_and_release_key (9223372036, 9223372036) ''SPACE'' (Finite 0) init =
      (Inr (), init\<lparr>pressed_keys := pressed_keys init - {''SPACE''},
                     effects := effects init @
                       [key_down_event c, Sleep 0, key_up_event c]\<rparr>)"
    and neg: "\<forall>d<0.
      hold_and_release_key (9223372036, 9223372036) ''SPACE'' (Finite d) init =
        (Inl (if fits_clock (9223372036, 9223372036) d
              then ValueError ''sleep length must be non-negative''
              else OverflowError),
         init\<lparr>pressed_keys := insert ''SPACE'' (pressed_keys init),
              effects := effects init @ [key_down_event c]\<rparr>) \<and>
        ''SPACE'' \<in> pressed_keys
          (snd (hold_and_release_key (9223372036, 9223372036) ''SPACE'' (Finite d) init))"
    and inf: "hold_and_release_key (9223372036, 9223372036) ''SPACE'' NegInf init =
      (Inl OverflowError,
       init\<lparr>pressed_keys := insert ''SPACE'' (pressed_keys init),
            effects := effects init @ [key_down_event c]\<rparr>)"
    using hold_and_release_key_by_sign [OF valid_SPACE, of "(9223372036, 9223372036)" init]
    by blast
  have c39: "c = 0x39"
    using c by (simp add: code_SPACE)
  have m1: "hold_and_release_key (9223372036, 9223372036) ''SPACE'' (Finite (-1)) init =
      (Inl (ValueError ''sleep length must be non-negative''),
       \<lparr>pressed_keys = {''SPACE''}, effects = [key_down_event 0x39]\<rparr>)"
    using neg [rule_format, of "-1"] by (simp add: c39 fits_clock_def init_def)
  have big: "hold_and_release_key (9223372036, 9223372036) ''SPACE''
               (Finite (-10000000000)) init =
      (Inl OverflowError, \<lparr>pressed_keys = {''SPACE''}, effects = [key_down_event 0x39]\<rparr>)"
    using neg [rule_format, of "-10000000000"] by (simp add: c39 fits_clock_def init_def)
  show ?thesis
    using valid_SPACE zero inf m1 big by (simp add: c39 init_def)
qed

subsection \<open>C6: names and codes\<close>

text \<open>
  Claim C6 says that the table is one-to-one. It is not: \<open>DELETE\<close> and
  \<open>NUMPAD_PERIOD\<close> are different names with the same code \<open>0x53\<close>, and the lookup
  returns the same result for both.
\<close>

theorem KEY_CODES_collision_counterexample:
  "map_of KEY_CODES ''DELETE'' = Some 0x53 \<and>
   map_of KEY_CODES ''NUMPAD_PERIOD'' = Some 0x53 \<and>
   ''DELETE'' \<noteq> ''NUMPAD_PERIOD'' \<and>
   get_hex_key_code ''DELETE'' = Inr 0x53 \<and>
   get_hex_key_code ''NUMPAD_PERIOD'' = Inr 0x53"
  by code_simp

text \<open>
  Claim C6, amended. Every key name of the table has exactly one code: no name is
  listed twice, and each listed name is mapped to a code. Two different names map to
  different codes unless they are the pair \<open>DELETE\<close> and \<open>NUMPAD_PERIOD\<close>.
\<close>

theorem KEY_CODES_one_code_per_name:
  "distinct (map fst KEY_CODES) \<and>
   (\<forall>n \<in> set (map fst KEY_CODES). \<exists>c. map_of KEY_CODES n = Some c) \<and>
   (\<forall>n1 n2 c. map_of KEY_CODES n1 = Some c \<and> map_of KEY_CODES n2 = Some c \<and> n1 \<noteq> n2
        \<longrightarrow> {n1, n2} = {''DELETE'', ''NUMPAD_PERIOD''})"
proof -
  have "\<forall>n \<in> set (map fst KEY_CODES). \<exists>c. map_of KEY_CODES n = Some c"
    by (metis domD dom_map_of_conv_image_fst image_set)
  then show ?thesis
    using KEY_CODES_names_distinct same_code_cases by blast
qed

theorem KEY_CODES_one_code_per_name_witness:
  "''A'' \<in> set (map fst KEY_CODES) \<and> map_of KEY_CODES ''A'' = Some 0x1E \<and>
   map_of KEY_CODES ''DELETE'' = Some 0x53 \<and> map_of KEY_CODES ''NUMPAD_PERIOD'' = Some 0x53 \<and>
   ''DELETE'' \<noteq> ''NUMPAD_PERIOD'' \<and>
   {''DELETE'', ''NUMPAD_PERIOD''} = {''DELETE'', ''NUMPAD_PERIOD''}"
proof -
  have a: "''A'' \<in> set (map fst KEY_CODES)" by code_simp
  have ne: "''DELETE'' \<noteq> ''NUMPAD_PERIOD''" by simp
  from KEY_CODES_one_code_per_name have "\<exists>c. map_of KEY_CODES ''A'' = Some c"
    using a by blast
  then show ?thesis
    using a lookup_A lookup_DELETE lookup_NUMPAD_PERIOD ne by simp
qed

subsection \<open>C7: pressing an unknown key changes nothing\<close>

text \<open>
  Claim C7. For a string whose upper-cased form is not in the table, \<open>hold_key\<close> raises
  the \<open>ValueError\<close> for the unknown name and leaves the controller as it was: the set
  of pressed keys is unchanged and no event has been sent.
\<close>

theorem hold_key_unknown_unchanged:
  assumes "\<not> valid_key_name k"
  shows "hold_key k s = (Inl (ValueError (unknown_key_message k)), s)"
  using get_hex_key_code_invalid [OF assms] by (simp add: hold_key_err)

theorem hold_key_unknown_unchanged_witness:
  "\<not> valid_key_name ''nonexistent_key'' \<and>
   hold_key ''nonexistent_key'' \<lparr>pressed_keys = {''A''}, effects = [key_down_event 0x1E]\<rparr> =
     (Inl (ValueError (unknown_key_message ''nonexistent_key'')),
      \<lparr>pressed_keys = {''A''}, effects = [key_down_event 0x1E]\<rparr>)"
  using invalid_nonexistent_key
    hold_key_unknown_unchanged [OF invalid_nonexistent_key,
      of "\<lparr>pressed_keys = {''A''}, effects = [key_down_event 0x1E]\<rparr>"]
  by simp

subsection \<open>C8: releasing a key that is not pressed\<close>

text \<open>
  Claim C8. For a valid key name \<open>k\<close> that is not in the set of pressed keys,
  \<open>release_key k\<close> returns normally and the set is the same afterwards.
\<close>

theorem release_key_absent_noop:
  assumes "valid_key_name k" and "k \<notin> pressed_keys s"
  shows "fst (release_key k s) = Inr () \<and>
         pressed_keys (snd (release_key k s)) = pressed_keys s"
proof -
  obtain c where c: "get_hex_key_code k = Inr c"
    using get_hex_key_code_valid [OF assms(1)] by blast
  show ?thesis
    using assms(2) by (simp add: release_key_ok [OF c])
qed

theorem release_key_absent_noop_witness:
  "valid_key_name ''space'' \<and> ''space'' \<notin> pressed_keys init \<and>
   fst (release_key ''space'' init) = Inr () \<and>
   pressed_keys (snd (release_key ''space'' init)) = pressed_keys init"
proof -
  have absent: "''space'' \<notin> pressed_keys init" by (simp add: init_def)
  show ?thesis
    using valid_space absent release_key_absent_noop [OF valid_space absent] by simp
qed

subsection \<open>C9: the lookups of the scenario\<close>

text \<open>
  Claim C9. \<open>get_hex_key_code\<close> returns \<open>0x39\<close> for \<open>space\<close> and \<open>0x58\<close> for \<open>f12\<close>, and
  for \<open>nonexistent_key\<close> it raises a \<open>ValueError\<close> whose message lists all the keys of
  the table; the list is written out.
\<close>

theorem lookup_examples:
  "get_hex_key_code ''space'' = Inr 0x39 \<and>
   get_hex_key_code ''f12'' = Inr 0x58 \<and>
   get_hex_key_code ''nonexistent_key'' =
     Inl (ValueError
       (''NONEXISTENT_KEY is not a valid key name. ''
        @ ''Please choose from the following valid keys: ''
        @ join '', '' (map fst KEY_CODES))) \<and>
   join '', '' (map fst KEY_CODES) =
     (''Q, E, W, R, T, Y, U, I, O, P, A, S, D, F, G, H, J, K, L, Z, X, C, V, ''
       @ ''B, N, M, LEFT_ARROW, RIGHT_ARROW, UP_ARROW, DOWN_ARROW, ESC, ONE, ''
       @ ''TWO, THREE, FOUR, FIVE, SIX, SEVEN, EIGHT, NINE, ZERO, MINUS, EQUALS, ''
       @ ''BACKSPACE, APOSTROPHE, SEMICOLON, TAB, CAPSLOCK, ENTER, LEFT_CONTROL, ''
       @ ''LEFT_ALT, LEFT_SHIFT, RIGHT_SHIFT, TILDE, PRINTSCREEN, NUM_LOCK, ''
       @ ''SPACE, DELETE, COMMA, PERIOD, BACKSLASH, FORWARDSLASH, LEFT_BRACKET, ''
       @ ''RIGHT_BRACKET, F1, F2, F3, F4, F5, F6, F7, F8, F9, F10, F11, F12, ''
       @ ''NUMPAD_0, NUMPAD_1, NUMPAD_2, NUMPAD_3, NUMPAD_4, NUMPAD_5, NUMPAD_6, ''
       @ ''NUMPAD_7, NUMPAD_8, NUMPAD_9, NUMPAD_PLUS, NUMPAD_MINUS, ''
       @ ''NUMPAD_PERIOD, NUMPAD_ENTER, NUMPAD_BACKSLASH, LEFT_MOUSE, ''
       @ ''RIGHT_MOUSE, MIDDLE_MOUSE, MOUSE3, MOUSE4, MOUSE5, MOUSE6, MOUSE7, ''
       @ ''MOUSE_WHEEL_UP, MOUSE_WHEEL_DOWN'')"
  by code_simp

subsection \<open>C10: the set keeps the caller's spelling\<close>

text \<open>
  Claim C10. \<open>hold_key\<close> adds the string it was given, not its upper-cased form. So for
  a valid key name \<open>k\<close> and a different spelling \<open>k'\<close> of the same key (the same
  upper-cased form, as \<open>k.upper()\<close> is when \<open>k\<close> is not in upper case): releasing \<open>k'\<close>
  after pressing \<open>k\<close> returns normally and leaves \<open>k\<close> in the set, and pressing \<open>k\<close> and
  then \<open>k'\<close> leaves both strings in the set, as two entries.
\<close>

theorem pressed_keys_keep_caller_spelling:
  assumes "valid_key_name k" and "upper k' = upper k" and "k' \<noteq> k"
  shows "pressed_keys (snd (hold_key k s)) = insert k (pressed_keys s) \<and>
         fst (release_key k' (snd (hold_key k s))) = Inr () \<and>
         k \<in> pressed_keys (snd (release_key k' (snd (hold_key k s)))) \<and>
         fst (hold_key k' (snd (hold_key k s))) = Inr () \<and>
         pressed_keys (snd (hold_key k' (snd (hold_key k s)))) =
           insert k' (insert k (pressed_keys s)) \<and>
         card {k, k'} = 2"
proof -
  obtain c where c: "get_hex_key_code k = Inr c"
    using get_hex_key_code_valid [OF assms(1)] by blast
  have c': "get_hex_key_code k' = Inr c"
    using c get_hex_key_code_upper_eq [OF assms(2)] by simp
  show ?thesis
    using assms(3) by (simp add: hold_key_ok [OF c] hold_key_ok [OF c'] release_key_ok [OF c'])
qed

theorem pressed_keys_keep_caller_spelling_witness:
  "valid_key_name ''space'' \<and> upper ''SPACE'' = upper ''space'' \<and> ''SPACE'' \<noteq> ''space'' \<and>
   ''space'' \<noteq> upper ''space'' \<and>
   pressed_keys (snd (hold_key ''space'' init)) = {''space''} \<and>
   fst (release_key ''SPACE'' (snd (hold_key ''space'' init))) = Inr () \<and>
   ''space'' \<in> pressed_keys (snd (release_key ''SPACE'' (snd (hold_key ''space'' init)))) \<and>
   pressed_keys (snd (hold_key ''SPACE'' (snd (hold_key ''space'' init)))) =
     {''SPACE'', ''space''}"
proof -
  have same: "upper ''SPACE'' = upper ''space''" by (simp add: upper_space upper_SPACE)
  have ne: "''SPACE'' \<noteq> ''space''" by simp
  show ?thesis
    using valid_space same ne
      pressed_keys_keep_caller_spelling [OF valid_space same ne, of init]
    by (simp add: init_def upper_space)
qed

end
